theory Spec2Isabelle
  imports Complex_Main
begin

section \<open>Strings and the built-in \<open>int()\<close>\<close>

text \<open>
  A Python \<open>str\<close> is modelled by \<^typ>\<open>string\<close>: a list of characters, one \<^typ>\<open>char\<close>
  per code point, for the code points 0 to 255. Everything the program does with a string
  (the regular expression of \<open>Service.SPEC\<close>, \<open>int()\<close>, \<open>split\<close>, \<open>strip\<close>,
  \<open>startswith\<close>) works code point by code point.
\<close>

definition char_in :: "char \<Rightarrow> nat list \<Rightarrow> bool" where
  "char_in c codes \<longleftrightarrow> (of_char c :: nat) \<in> set codes"

text \<open>
  The characters \<open>int()\<close> skips around a literal: the ASCII white space of C, and the two
  Unicode white-space characters below 256, which CPython maps to a blank first.
\<close>

definition int_space :: "char \<Rightarrow> bool" where
  "int_space c \<longleftrightarrow> char_in c [9, 10, 11, 12, 13, 32, 133, 160]"

definition is_digit :: "char \<Rightarrow> bool" where
  "is_digit c \<longleftrightarrow> 48 \<le> (of_char c :: nat) \<and> (of_char c :: nat) \<le> 57"

definition digit_val :: "char \<Rightarrow> nat" where
  "digit_val c = of_char c - 48"

definition decimal :: "string \<Rightarrow> nat" where
  "decimal ds = foldl (\<lambda>a c. 10 * a + digit_val c) 0 ds"

fun double_underscore :: "string \<Rightarrow> bool" where
  "double_underscore (a # b # cs) \<longleftrightarrow>
     (a = CHR ''_'' \<and> b = CHR ''_'') \<or> double_underscore (b # cs)"
| "double_underscore _ \<longleftrightarrow> False"

datatype ValueError = ValueError string

text \<open>
  \<open>int(s)\<close> for a string \<open>s\<close>, base 10: white space, an optional sign, decimal digits with
  single underscores between them, white space. Anything else raises \<open>ValueError\<close>, and so
  does a literal of more than \<open>max_str_digits\<close> digits when that interpreter limit is set
  (it is 4300 by default from Python 3.11 on, and \<open>0\<close> stands for no limit; CPython applies
  it to literals of more than 640 digits only). The error carries the rejected string.
\<close>

definition py_int :: "nat \<Rightarrow> string \<Rightarrow> ValueError + int" where
  "py_int max_str_digits s =
     (let s1 = dropWhile int_space s;
          negative = (s1 \<noteq> [] \<and> hd s1 = CHR ''-'');
          s2 = (if s1 \<noteq> [] \<and> (hd s1 = CHR ''+'' \<or> hd s1 = CHR ''-'') then tl s1 else s1);
          body = takeWhile (\<lambda>c. is_digit c \<or> c = CHR ''_'') s2;
          rest = dropWhile (\<lambda>c. is_digit c \<or> c = CHR ''_'') s2;
          digits = filter is_digit body
      in if body = [] \<or> hd body = CHR ''_'' \<or> last body = CHR ''_'' \<or> double_underscore body
            \<or> (640 < length digits \<and> 0 < max_str_digits \<and> max_str_digits < length digits)
            \<or> dropWhile int_space rest \<noteq> []
         then Inl (ValueError s)
         else Inr (if negative then - int (decimal digits) else int (decimal digits)))"

section \<open>The service descriptor\<close>

text \<open>
  \<open>SPEC = "(?P<ip>@[^@:]+)|(?P<port>:[^@:]+)|(?P<hostname>[^@:]+)"\<close>: three named
  groups, one per alternative.
\<close>

datatype group = ip_group | port_group | hostname_group

definition delimiter :: "char \<Rightarrow> bool" where
  "delimiter c \<longleftrightarrow> c = CHR ''@'' \<or> c = CHR '':''"

text \<open>
  \<open>re.finditer(Service.SPEC, description)\<close>, as the list of \<open>(token.lastgroup,
  token.group())\<close> of its matches. At a position holding \<open>@\<close> (or \<open>:\<close>) the first (second)
  alternative matches when at least one character other than \<open>@\<close> and \<open>:\<close> follows, and
  takes all of them; when none follows, no alternative matches there and the scan moves
  one character on. At any other character the third alternative takes the longest run
  free of \<open>@\<close> and \<open>:\<close>. The scan resumes where a match ended.
\<close>

function finditer :: "string \<Rightarrow> (group \<times> string) list" where
  "finditer [] = []"
| "finditer (c # cs) =
     (if c = CHR ''@'' then
        (if takeWhile (\<lambda>x. \<not> delimiter x) cs = [] then finditer cs
         else (ip_group, c # takeWhile (\<lambda>x. \<not> delimiter x) cs)
                # finditer (dropWhile (\<lambda>x. \<not> delimiter x) cs))
      else if c = CHR '':'' then
        (if takeWhile (\<lambda>x. \<not> delimiter x) cs = [] then finditer cs
         else (port_group, c # takeWhile (\<lambda>x. \<not> delimiter x) cs)
                # finditer (dropWhile (\<lambda>x. \<not> delimiter x) cs))
      else (hostname_group, c # takeWhile (\<lambda>x. \<not> delimiter x) cs)
             # finditer (dropWhile (\<lambda>x. \<not> delimiter x) cs))"
  by pat_completeness auto
termination
  by (relation "measure length") (auto simp: le_imp_less_Suc length_dropWhile_le)

record Service =
  description :: string
  ip :: "string option"
  port :: int
  hostname :: "string option"

text \<open>
  The body of the \<open>for\<close> loop of \<open>Service.__init__\<close>, for one match: \<open>value[1:]\<close> is
  \<^term>\<open>tl val\<close>, and \<open>int()\<close> may raise.
\<close>

definition loop_body :: "nat \<Rightarrow> Service \<Rightarrow> group \<times> string \<Rightarrow> ValueError + Service" where
  "loop_body max_str_digits self token =
     (let kind = fst token; val = snd token in
      case kind of
        ip_group \<Rightarrow> Inr (self\<lparr>ip := Some (tl val)\<rparr>)
      | port_group \<Rightarrow>
          (case py_int max_str_digits (tl val) of
             Inl e \<Rightarrow> Inl e
           | Inr n \<Rightarrow> Inr (self\<lparr>port := n\<rparr>))
      | hostname_group \<Rightarrow> Inr (self\<lparr>hostname := Some val\<rparr>))"

fun init_loop :: "nat \<Rightarrow> Service \<Rightarrow> (group \<times> string) list \<Rightarrow> ValueError + Service" where
  "init_loop max_str_digits self [] = Inr self"
| "init_loop max_str_digits self (token # tokens) =
     (case loop_body max_str_digits self token of
        Inl e \<Rightarrow> Inl e
      | Inr self' \<Rightarrow> init_loop max_str_digits self' tokens)"

definition Service_init :: "nat \<Rightarrow> string \<Rightarrow> ValueError + Service" where
  "Service_init max_str_digits desc =
     init_loop max_str_digits
       \<lparr>description = desc, ip = None, port = 443, hostname = None\<rparr>
       (finditer desc)"

text \<open>
  The value of the last match of a group, in scan order: what the loop of
  \<open>Service.__init__\<close> is compared with.
\<close>

definition last_value :: "group \<Rightarrow> (group \<times> string) list \<Rightarrow> string option" where
  "last_value g tokens =
     (case filter (\<lambda>t. fst t = g) tokens of
        [] \<Rightarrow> None
      | t # ts \<Rightarrow> Some (snd (last (t # ts))))"

section \<open>Reading hosts from a file\<close>

text \<open>\<open>content.split("\n")\<close>: the pieces between the line feeds, at least one.\<close>

function split_newline :: "string \<Rightarrow> string list" where
  "split_newline content =
     (case dropWhile (\<lambda>c. c \<noteq> CHR 0x0A) content of
        [] \<Rightarrow> [content]
      | c # rest \<Rightarrow> takeWhile (\<lambda>c. c \<noteq> CHR 0x0A) content # split_newline rest)"
  by pat_completeness auto
termination
proof (relation "measure length")
  fix content :: string and c rest
  assume "dropWhile (\<lambda>c. c \<noteq> CHR 0x0A) content = c # rest"
  then have "length (c # rest) \<le> length content"
    by (metis length_dropWhile_le)
  then show "(rest, content) \<in> measure length" by simp
qed simp

declare split_newline.simps [simp del]

text \<open>
  The characters \<open>str.strip()\<close> removes: those for which \<open>str.isspace()\<close> holds, among
  the code points below 256.
\<close>

definition is_space :: "char \<Rightarrow> bool" where
  "is_space c \<longleftrightarrow> char_in c [9, 10, 11, 12, 13, 28, 29, 30, 31, 32, 133, 160]"

definition strip :: "string \<Rightarrow> string" where
  "strip s = rev (dropWhile is_space (rev (dropWhile is_space s)))"

definition startswith :: "string \<Rightarrow> char \<Rightarrow> bool" where
  "startswith s c = (case s of [] \<Rightarrow> False | x # _ \<Rightarrow> x = c)"

text \<open>
  Lines 178 to 183 of \<open>main\<close>: \<open>from_file\<close> is \<open>None\<close> without \<open>--from-file\<close>, and
  otherwise the text that \<open>args.from_file.read()\<close> returns. The result is the list
  \<open>hosts\<close> after the \<open>extend\<close>.
\<close>

definition main_hosts :: "string list \<Rightarrow> string option \<Rightarrow> string list" where
  "main_hosts hosts from_file =
     (case from_file of
        None \<Rightarrow> hosts
      | Some content \<Rightarrow>
          hosts @ map strip
                    (filter (\<lambda>host. host \<noteq> [] \<and> \<not> startswith host (CHR ''#''))
                       (split_newline content)))"

text \<open>The text of a file made of the given lines, a line feed between two lines.\<close>

fun join_newline :: "string list \<Rightarrow> string" where
  "join_newline [] = []"
| "join_newline [l] = l"
| "join_newline (l # ls) = l @ CHR 0x0A # join_newline ls"

section \<open>Durations and their day count\<close>

text \<open>
  A \<open>datetime\<close> is modelled by its distance from a fixed instant and a \<open>timedelta\<close> by
  its length, both as a whole number of microseconds, which is the resolution of both
  types; subtraction and comparison are exact in Python as they are here.

  \<open>timedelta.total_seconds()\<close> divides the microseconds by \<open>10**6\<close> and returns a
  \<open>float\<close>: the double nearest to the quotient, ties going to the even significand.
  A finite double is a rational number, and that is how it is modelled; the exponent
  range of doubles is not, since no \<open>timedelta\<close> comes near it.
\<close>

function bit_length :: "int \<Rightarrow> int" where
  "bit_length n = (if n \<le> 0 then 0 else 1 + bit_length (n div 2))"
  by pat_completeness auto
termination
  by (relation "measure nat") auto

declare bit_length.simps [simp del]

definition round_half_even :: "rat \<Rightarrow> int" where
  "round_half_even z =
     (let f = \<lfloor>z\<rfloor>; r = z - of_int f
      in if r < 1 / 2 then f else if 1 / 2 < r then f + 1 else if even f then f else f + 1)"

text \<open>
  \<open>n / d\<close> for Python integers, \<open>d\<close> positive: with \<open>e\<close> the integer such that
  \<open>2^e \<le> |n| / d < 2^(e+1)\<close>, the quotient is rounded to a multiple of \<open>2^(e - 52)\<close>,
  which leaves 53 significant bits.
\<close>

definition true_divide :: "int \<Rightarrow> int \<Rightarrow> rat" where
  "true_divide n d =
     (if n = 0 then 0
      else let a = \<bar>n\<bar>;
               L = bit_length a - bit_length d;
               e = (if of_int d * 2 powi L \<le> (of_int a :: rat) then L else L - 1);
               u = 2 powi (e - 52);
               m = round_half_even (of_int a / (of_int d * u))
           in of_int (sgn n * m) * u)"

definition total_seconds :: "int \<Rightarrow> rat" where
  "total_seconds us = true_divide us 1000000"

text \<open>
  \<open>x // 86400\<close> for a float \<open>x\<close>. CPython computes \<open>(x - fmod(x, 86400)) / 86400\<close> and
  corrects it by one when the remainder is negative; for the seconds of a \<open>timedelta\<close>
  every step is exact, and the result is the floor of the quotient, an integral float.
\<close>

definition floordiv_86400 :: "rat \<Rightarrow> int" where
  "floordiv_86400 x = \<lfloor>x / 86400\<rfloor>"

text \<open>The format \<open>:.0f\<close> of an integral float: its decimal digits, after a minus sign if negative.\<close>

function digits_of :: "int \<Rightarrow> string" where
  "digits_of n =
     (if n < 10 then [char_of (48 + n)]
      else digits_of (n div 10) @ [char_of (48 + n mod 10)])"
  by pat_completeness auto
termination
  by (relation "measure nat") auto

declare digits_of.simps [simp del]

definition format_0f :: "int \<Rightarrow> string" where
  "format_0f n = (if n < 0 then CHR ''-'' # digits_of (- n) else digits_of n)"

definition days_text :: "int \<Rightarrow> string" where
  "days_text us = format_0f (floordiv_86400 (total_seconds us))"

section \<open>Fetching and validating a certificate\<close>

text \<open>
  An exception raised by a library is modelled by the first \<open>except\<close> clause of
  \<open>validate_certificate\<close> that its class matches, and by its \<open>str()\<close>.
\<close>

datatype exc_class = socket_timeout | ConnectionResetError | IndexError | other_Exception

datatype exc = Exc exc_class string

text \<open>The two fields that are read of the dictionary \<open>getpeercert()\<close> returns.\<close>

record cert =
  notAfter :: string
  notBefore :: string

text \<open>
  What the program does not decide itself: the outcome of connecting (to an address and
  a port, under a timeout), of the TLS handshake under a server name followed by
  \<open>getpeercert()\<close>, of \<open>datetime.strptime\<close> with the format of the source, the clock
  (\<open>utcnow k\<close> is the \<open>k\<close>-th reading during one validation, from 0), and
  \<open>ocspchecker.get_ocsp_status\<close>.
\<close>

record env =
  create_connection :: "string option \<times> int \<Rightarrow> rat \<Rightarrow> exc + unit"
  wrap_socket :: "string option \<Rightarrow> exc + cert"
  strptime :: "string \<Rightarrow> exc + int"
  utcnow :: "nat \<Rightarrow> int"
  get_ocsp_status :: "Service \<Rightarrow> exc + string list"

text \<open>Python's \<open>a or b\<close> on optional strings: \<open>a\<close> unless it is \<open>None\<close> or empty.\<close>

definition py_or :: "string option \<Rightarrow> string option \<Rightarrow> string option" where
  "py_or a b = (case a of None \<Rightarrow> b | Some [] \<Rightarrow> b | Some (c # cs) \<Rightarrow> a)"

definition get_server_certificate :: "env \<Rightarrow> Service \<Rightarrow> rat \<Rightarrow> exc + cert" where
  "get_server_certificate world service timeout =
     (case create_connection world (py_or (ip service) (hostname service), port service) timeout of
        Inl err \<Rightarrow> Inl err
      | Inr sock \<Rightarrow> wrap_socket world (hostname service))"

text \<open>
  \<open>CertificateValidationError\<close> carries a text only. The model adds which of the six
  \<open>raise\<close> statements built it, in the order of the source: lines 139, 141, 143, 153,
  155 and 159.
\<close>

datatype FailureKind =
  ConnectTimeout | ConnectionReset | NetworkError | Revoked | ExpiringSoon | TooOld

text \<open>
  How \<open>validate_certificate\<close> ends: it raises \<open>CertificateValidationError\<close>, or an
  exception of a library passes through it, or it returns (\<open>Inr ()\<close>).
\<close>

datatype error = CertificateValidationError FailureKind string | Uncaught exc

datatype call = call_get_server_certificate | call_utcnow | call_get_ocsp_status

text \<open>The \<open>except\<close> clauses of lines 138 to 143.\<close>

fun wrap_fetch_error :: "exc \<Rightarrow> error" where
  "wrap_fetch_error (Exc socket_timeout msg) =
     CertificateValidationError ConnectTimeout ''connect timeout''"
| "wrap_fetch_error (Exc ConnectionResetError msg) =
     CertificateValidationError ConnectionReset ''Connection reset''"
| "wrap_fetch_error (Exc c msg) = CertificateValidationError NetworkError msg"

text \<open>Lines 154 to 161: the two limits.\<close>

definition check_limits :: "int \<Rightarrow> int \<Rightarrow> int \<Rightarrow> int \<Rightarrow> error + unit" where
  "check_limits limitlow limithigh expire_in certificate_age =
     (if expire_in < limitlow then
        Inl (CertificateValidationError ExpiringSoon
               (''Certificate expires in '' @ days_text expire_in @ '' days''))
      else if certificate_age > limithigh then
        Inl (CertificateValidationError TooOld
               (''Certificate is too old (has been created '' @ days_text certificate_age
                  @ '' days ago)''))
      else Inr ())"

text \<open>
  \<open>validate_certificate\<close>, with the calls it made to the fetcher, the clock and the
  revocation checker, in order. \<open>status[2]\<close> raises \<open>IndexError\<close> on a list of fewer
  than three items.
\<close>

definition validate_certificate ::
  "env \<Rightarrow> Service \<Rightarrow> int \<Rightarrow> int \<Rightarrow> bool \<Rightarrow> rat \<Rightarrow> (error + unit) \<times> call list" where
  "validate_certificate world service limitlow limithigh check_ocsp delay =
     (case get_server_certificate world service delay of
        Inl err \<Rightarrow> (Inl (wrap_fetch_error err), [call_get_server_certificate])
      | Inr cert \<Rightarrow>
          (case strptime world (notAfter cert) of
             Inl err \<Rightarrow> (Inl (Uncaught err), [call_get_server_certificate])
           | Inr not_after \<Rightarrow>
               (case strptime world (notBefore cert) of
                  Inl err \<Rightarrow> (Inl (Uncaught err), [call_get_server_certificate])
                | Inr not_before \<Rightarrow>
                    (let expire_in = not_after - utcnow world 0;
                         certificate_age = utcnow world 1 - not_before;
                         calls = [call_get_server_certificate, call_utcnow, call_utcnow]
                     in if check_ocsp then
                          (case get_ocsp_status world service of
                             Inl err \<Rightarrow> (Inl (Uncaught err), calls @ [call_get_ocsp_status])
                           | Inr status \<Rightarrow>
                               if length status \<le> 2 then
                                 (Inl (Uncaught (Exc IndexError ''list index out of range'')),
                                  calls @ [call_get_ocsp_status])
                               else if status ! 2 = ''OCSP Status: REVOKED'' then
                                 (Inl (CertificateValidationError Revoked ''OCSP Satus: REVOKED''),
                                  calls @ [call_get_ocsp_status])
                               else
                                 (check_limits limitlow limithigh expire_in certificate_age,
                                  calls @ [call_get_ocsp_status]))
                        else
                          (check_limits limitlow limithigh expire_in certificate_age, calls)))))"

section \<open>An environment to run the validation in\<close>

text \<open>\<open>timedelta(days=n)\<close>, as \<open>main\<close> builds the two limits.\<close>

definition timedelta_days :: "int \<Rightarrow> int" where
  "timedelta_days n = n * 86400000000"

definition example_service :: Service where
  "example_service =
     \<lparr>description = ''example.com'', ip = None, port = 443, hostname = Some ''example.com''\<rparr>"

text \<open>
  \<open>datetime.strptime\<close> on a few dates, in microseconds since the first instant of the
  year 1; anything else is rejected here.
\<close>

definition example_strptime :: "string \<Rightarrow> exc + int" where
  "example_strptime s =
     (if s = ''Sep 30 12:00:00 2025 GMT'' then Inr 63894830400000000
      else if s = ''Oct 25 12:00:00 2026 GMT'' then Inr 63928526400000000
      else if s = ''Nov  9 12:00:00 2026 GMT'' then Inr 63929822400000000
      else if s = ''Nov 24 12:00:00 2026 GMT'' then Inr 63931118400000000
      else if s = ''Dec 31 23:59:59 9999 GMT'' then Inr 315537897599000000
      else Inl (Exc other_Exception ''time data does not match format''))"

text \<open>
  An environment in which connecting ends as given, the handshake returns the given
  certificate, the clock stands at the given instant and the revocation checker ends as
  given.
\<close>

definition example_world :: "exc + unit \<Rightarrow> cert \<Rightarrow> int \<Rightarrow> exc + string list \<Rightarrow> env" where
  "example_world outcome certificate now status =
     \<lparr>create_connection = (\<lambda>address timeout. outcome),
      wrap_socket = (\<lambda>server_hostname. Inr certificate),
      strptime = example_strptime,
      utcnow = (\<lambda>k. now),
      get_ocsp_status = (\<lambda>service. status)\<rparr>"

text \<open>4 November 2026, 12:00:00, and a certificate issued ten days before it.\<close>

definition noon :: int where
  "noon = 63929390400000000"

definition example_cert :: "string \<Rightarrow> cert" where
  "example_cert not_after = \<lparr>notAfter = not_after, notBefore = ''Oct 25 12:00:00 2026 GMT''\<rparr>"

section \<open>What the scan of a description yields\<close>

lemma last_value_Nil: "last_value g [] = None"
  by (simp add: last_value_def)

lemma last_value_Cons:
  "last_value g (t # ts) =
     (case last_value g ts of
        None \<Rightarrow> if fst t = g then Some (snd t) else None
      | Some v \<Rightarrow> Some v)"
  by (simp add: last_value_def split: list.splits)

lemma last_value_None_iff: "last_value g ts = None \<longleftrightarrow> g \<notin> fst ` set ts"
  by (induction ts) (auto simp: last_value_Nil last_value_Cons split: option.splits)

lemma last_value_mem: "last_value g ts = Some v \<Longrightarrow> (g, v) \<in> set ts"
  by (induction ts) (auto simp: last_value_Nil last_value_Cons split: option.splits if_splits)

lemma init_loop_Inr:
  "init_loop md s0 toks = Inr s \<Longrightarrow>
     description s = description s0 \<and>
     ip s = (case last_value ip_group toks of None \<Rightarrow> ip s0 | Some v \<Rightarrow> Some (tl v)) \<and>
     hostname s = (case last_value hostname_group toks of None \<Rightarrow> hostname s0 | Some v \<Rightarrow> Some v) \<and>
     (case last_value port_group toks of
        None \<Rightarrow> port s = port s0
      | Some v \<Rightarrow> py_int md (tl v) = Inr (port s))"
proof (induction toks arbitrary: s0)
  case Nil
  then show ?case by (simp add: last_value_Nil)
next
  case (Cons t toks)
  obtain g v where t: "t = (g, v)" by (cases t)
  from Cons.prems obtain s1 where
    body: "loop_body md s0 t = Inr s1" and rest: "init_loop md s1 toks = Inr s"
    by (auto split: sum.splits)
  note IH = Cons.IH [OF rest]
  show ?case
  proof (cases g)
    case ip_group
    with body t have "s1 = s0\<lparr>ip := Some (tl v)\<rparr>" by (simp add: loop_body_def)
    with IH t ip_group show ?thesis
      by (simp add: last_value_Cons split: option.splits)
  next
    case port_group
    with body t obtain n where "py_int md (tl v) = Inr n" "s1 = s0\<lparr>port := n\<rparr>"
      by (auto simp: loop_body_def split: sum.splits)
    with IH t port_group show ?thesis
      by (simp add: last_value_Cons split: option.splits)
  next
    case hostname_group
    with body t have "s1 = s0\<lparr>hostname := Some v\<rparr>" by (simp add: loop_body_def)
    with IH t hostname_group show ?thesis
      by (simp add: last_value_Cons split: option.splits)
  qed
qed

lemma init_loop_Inl:
  "init_loop md s0 toks = Inl e \<Longrightarrow>
     \<exists>v. (port_group, v) \<in> set toks \<and> py_int md (tl v) = Inl e"
proof (induction toks arbitrary: s0)
  case Nil
  then show ?case by simp
next
  case (Cons t toks)
  obtain g v where t: "t = (g, v)" by (cases t)
  show ?case
  proof (cases "loop_body md s0 t")
    case (Inl e')
    with Cons.prems have "e' = e" by simp
    with Inl t have "g = port_group \<and> py_int md (tl v) = Inl e"
      by (cases g) (auto simp: loop_body_def split: sum.splits)
    with t show ?thesis by auto
  next
    case (Inr s1)
    with Cons.prems have "init_loop md s1 toks = Inl e" by simp
    from Cons.IH [OF this] show ?thesis by auto
  qed
qed

lemma init_loop_returns:
  "(\<And>v. (port_group, v) \<in> set toks \<Longrightarrow> \<exists>n. py_int md (tl v) = Inr n) \<Longrightarrow>
     \<exists>s. init_loop md s0 toks = Inr s"
proof (induction toks arbitrary: s0)
  case Nil
  then show ?case by simp
next
  case (Cons t toks)
  obtain g v where t: "t = (g, v)" by (cases t)
  have "\<exists>s1. loop_body md s0 t = Inr s1"
  proof (cases g)
    case port_group
    with t Cons.prems [of v] obtain n where "py_int md (tl v) = Inr n" by auto
    with t port_group show ?thesis by (simp add: loop_body_def)
  qed (simp_all add: t loop_body_def)
  then obtain s1 where s1: "loop_body md s0 t = Inr s1" ..
  have "\<exists>s. init_loop md s1 toks = Inr s"
    by (rule Cons.IH) (use Cons.prems in auto)
  with s1 show ?case by simp
qed











lemma takeWhile_run:
  assumes "\<forall>c\<in>set r. \<not> delimiter c" and "rest = [] \<or> delimiter (hd rest)"
  shows "takeWhile (\<lambda>x. \<not> delimiter x) (r @ rest) = r"
    and "dropWhile (\<lambda>x. \<not> delimiter x) (r @ rest) = rest"
proof -
  have "takeWhile (\<lambda>x. \<not> delimiter x) rest = []"
    using assms(2) by (cases rest) auto
  then show "takeWhile (\<lambda>x. \<not> delimiter x) (r @ rest) = r"
    using assms(1) by (simp add: takeWhile_append2)
  have "dropWhile (\<lambda>x. \<not> delimiter x) rest = rest"
    using assms(2) by (cases rest) auto
  then show "dropWhile (\<lambda>x. \<not> delimiter x) (r @ rest) = rest"
    using assms(1) by (simp add: dropWhile_append2)
qed

lemma finditer_hostname_run:
  assumes "r \<noteq> []" "\<forall>c\<in>set r. \<not> delimiter c" "rest = [] \<or> delimiter (hd rest)"
  shows "finditer (r @ rest) = (hostname_group, r) # finditer rest"
proof -
  from assms(1) obtain c cs where r: "r = c # cs" by (cases r) auto
  with assms(2) have c: "\<not> delimiter c" and cs: "\<forall>c\<in>set cs. \<not> delimiter c" by auto
  from takeWhile_run [OF cs assms(3)] c show ?thesis
    by (simp add: r delimiter_def)
qed

lemma finditer_ip_run:
  assumes "r \<noteq> []" "\<forall>c\<in>set r. \<not> delimiter c" "rest = [] \<or> delimiter (hd rest)"
  shows "finditer (CHR ''@'' # r @ rest) = (ip_group, CHR ''@'' # r) # finditer rest"
  using takeWhile_run [OF assms(2,3)] assms(1) by simp

lemma finditer_port_run:
  assumes "r \<noteq> []" "\<forall>c\<in>set r. \<not> delimiter c" "rest = [] \<or> delimiter (hd rest)"
  shows "finditer (CHR '':'' # r @ rest) = (port_group, CHR '':'' # r) # finditer rest"
  using takeWhile_run [OF assms(2,3)] assms(1) by simp

lemma Service_init_Inr:
  assumes "Service_init md d = Inr s"
  shows "description s = d"
    and "ip s = map_option tl (last_value ip_group (finditer d))"
    and "hostname s = last_value hostname_group (finditer d)"
    and "case last_value port_group (finditer d) of
           None \<Rightarrow> port s = 443
         | Some v \<Rightarrow> py_int md (tl v) = Inr (port s)"
  using init_loop_Inr [OF assms [unfolded Service_init_def]]
  by (simp_all split: option.splits)


lemma init_loop_Inr_ports:
  "init_loop md s0 toks = Inr s \<Longrightarrow> (port_group, v) \<in> set toks \<Longrightarrow>
     \<exists>n. py_int md (tl v) = Inr n"
proof (induction toks arbitrary: s0)
  case Nil
  then show ?case by simp
next
  case (Cons t toks)
  from Cons.prems(1) obtain s1 where
    body: "loop_body md s0 t = Inr s1" and rest: "init_loop md s1 toks = Inr s"
    by (auto split: sum.splits)
  show ?case
  proof (cases "t = (port_group, v)")
    case True
    with body show ?thesis by (auto simp: loop_body_def split: sum.splits)
  next
    case False
    with Cons.prems(2) have "(port_group, v) \<in> set toks" by simp
    with Cons.IH rest show ?thesis by blast
  qed
qed

lemma if_Inl: "(if c then Inl a else Inr b) = Inl e \<Longrightarrow> e = a"
  by (simp split: if_splits)

lemma py_int_Inl: "py_int md s = Inl e \<Longrightarrow> e = ValueError s"
  unfolding py_int_def Let_def by (rule if_Inl)


section \<open>Properties of the service descriptor\<close>

text \<open>
  C8. A description with neither \<open>@\<close> nor \<open>:\<close> is taken whole as the hostname, the port
  stays at its default 443 and there is no IP address. The empty description has no
  hostname part at all, and its hostname stays \<open>None\<close>, the empty hostname of a
  descriptor.
\<close>

theorem bare_hostname:
  assumes "\<forall>c\<in>set d. c \<noteq> CHR ''@'' \<and> c \<noteq> CHR '':''"
  shows "Service_init md d =
           Inr \<lparr>description = d, ip = None, port = 443,
                hostname = (if d = [] then None else Some d)\<rparr>"
proof (cases "d = []")
  case True
  then show ?thesis by (simp add: Service_init_def)
next
  case False
  from assms have "\<forall>c\<in>set d. \<not> delimiter c" by (simp add: delimiter_def)
  with False have "finditer (d @ []) = (hostname_group, d) # finditer []"
    by (intro finditer_hostname_run) auto
  with False show ?thesis by (simp add: Service_init_def loop_body_def)
qed

text \<open>The theorem of C8 at \<open>example.com\<close>.\<close>

theorem bare_hostname_witness:
  "Service_init 4300 ''example.com'' =
     Inr \<lparr>description = ''example.com'', ip = None, port = 443,
          hostname = Some ''example.com''\<rparr>"
proof -
  have h: "\<forall>c\<in>set ''example.com''. c \<noteq> CHR ''@'' \<and> c \<noteq> CHR '':''" by simp
  from bare_hostname [OF h, of 4300] show ?thesis by simp
qed

text \<open>
  C6, as the program has it. A description made of a hostname part \<open>h\<close>, an IP part
  \<open>@i\<close> and a port part \<open>:p\<close> whose text \<open>int()\<close> accepts gives hostname \<open>h\<close>, IP
  address \<open>i\<close> and port \<open>int(p)\<close> when the hostname part comes first, in either order
  of the other two: \<open>h@i:p\<close> and \<open>h:p@i\<close>.
\<close>

theorem hostname_first_orderings:
  assumes "h \<noteq> []" "i \<noteq> []" "p \<noteq> []"
    and "\<forall>c\<in>set (h @ i @ p). c \<noteq> CHR ''@'' \<and> c \<noteq> CHR '':''"
    and "py_int md p = Inr n"
  shows "Service_init md (h @ ''@'' @ i @ '':'' @ p) =
           Inr \<lparr>description = h @ ''@'' @ i @ '':'' @ p,
                ip = Some i, port = n, hostname = Some h\<rparr> \<and>
         Service_init md (h @ '':'' @ p @ ''@'' @ i) =
           Inr \<lparr>description = h @ '':'' @ p @ ''@'' @ i,
                ip = Some i, port = n, hostname = Some h\<rparr>"
proof -
  from assms(4) have h: "\<forall>c\<in>set h. \<not> delimiter c" and i: "\<forall>c\<in>set i. \<not> delimiter c"
    and p: "\<forall>c\<in>set p. \<not> delimiter c"
    by (auto simp: delimiter_def)
  have ip_last: "finditer (CHR ''@'' # i @ []) = (ip_group, CHR ''@'' # i) # finditer []"
    by (rule finditer_ip_run) (use assms i in auto)
  have port_last: "finditer (CHR '':'' # p @ []) = (port_group, CHR '':'' # p) # finditer []"
    by (rule finditer_port_run) (use assms p in auto)
  have "finditer (CHR ''@'' # i @ CHR '':'' # p) =
          (ip_group, CHR ''@'' # i) # finditer (CHR '':'' # p)"
    by (rule finditer_ip_run) (use assms i in \<open>auto simp: delimiter_def\<close>)
  moreover have "finditer (h @ CHR ''@'' # i @ CHR '':'' # p) =
          (hostname_group, h) # finditer (CHR ''@'' # i @ CHR '':'' # p)"
    by (rule finditer_hostname_run) (use assms h in \<open>auto simp: delimiter_def\<close>)
  ultimately have 1: "finditer (h @ ''@'' @ i @ '':'' @ p) =
      [(hostname_group, h), (ip_group, CHR ''@'' # i), (port_group, CHR '':'' # p)]"
    using port_last by simp
  have "finditer (CHR '':'' # p @ CHR ''@'' # i) =
          (port_group, CHR '':'' # p) # finditer (CHR ''@'' # i)"
    by (rule finditer_port_run) (use assms p in \<open>auto simp: delimiter_def\<close>)
  moreover have "finditer (h @ CHR '':'' # p @ CHR ''@'' # i) =
          (hostname_group, h) # finditer (CHR '':'' # p @ CHR ''@'' # i)"
    by (rule finditer_hostname_run) (use assms h in \<open>auto simp: delimiter_def\<close>)
  ultimately have 2: "finditer (h @ '':'' @ p @ ''@'' @ i) =
      [(hostname_group, h), (port_group, CHR '':'' # p), (ip_group, CHR ''@'' # i)]"
    using ip_last by simp
  show ?thesis
    unfolding Service_init_def 1 2 using assms(5) by (simp add: loop_body_def)
qed

text \<open>The theorem of C6 at \<open>example.com\<close>, \<open>1.2.3.4\<close> and \<open>8443\<close>.\<close>

theorem hostname_first_orderings_witness:
  "Service_init 4300 ''example.com@1.2.3.4:8443'' =
     Inr \<lparr>description = ''example.com@1.2.3.4:8443'',
          ip = Some ''1.2.3.4'', port = 8443, hostname = Some ''example.com''\<rparr> \<and>
   Service_init 4300 ''example.com:8443@1.2.3.4'' =
     Inr \<lparr>description = ''example.com:8443@1.2.3.4'',
          ip = Some ''1.2.3.4'', port = 8443, hostname = Some ''example.com''\<rparr>"
proof -
  have p: "py_int 4300 ''8443'' = Inr 8443" by code_simp
  have c: "\<forall>c\<in>set (''example.com'' @ ''1.2.3.4'' @ ''8443''). c \<noteq> CHR ''@'' \<and> c \<noteq> CHR '':''"
    by simp
  from hostname_first_orderings [OF _ _ _ c p] show ?thesis by simp
qed

text \<open>
  C6 as stated fails when the hostname part follows another part: after \<open>@\<close> the first
  alternative of \<open>SPEC\<close> takes every character up to the next \<open>@\<close> or \<open>:\<close>, so in
  \<open>@1.2.3.4example.com:8443\<close> the hostname is read as the end of the IP address and the
  descriptor has no hostname.
\<close>

theorem ip_before_hostname_counterexample:
  "Service_init 4300 ''@1.2.3.4example.com:8443'' =
     Inr \<lparr>description = ''@1.2.3.4example.com:8443'',
          ip = Some ''1.2.3.4example.com'', port = 8443, hostname = None\<rparr>"
  by code_simp

text \<open>
  C7, as the program has it. Whatever the description, when \<open>Service.__init__\<close> returns,
  that is when \<open>int()\<close> accepts every port part, each field holds the
  value of the last match of its group in scan order (the hostname and the IP address as
  matched, the port as \<open>int()\<close> reads the last port part), earlier matches of the group
  being overwritten; a group without a match leaves the default. There is no error for a
  repeated part: when \<open>Service.__init__\<close> raises, the exception is the \<open>ValueError\<close> that
  \<open>int()\<close> raises on one of the port parts by itself.
\<close>

theorem last_occurrence_wins:
  "(\<forall>s. Service_init md d = Inr s \<longrightarrow>
      hostname s = last_value hostname_group (finditer d) \<and>
      ip s = map_option tl (last_value ip_group (finditer d)) \<and>
      (case last_value port_group (finditer d) of
         None \<Rightarrow> port s = 443
       | Some v \<Rightarrow> py_int md (tl v) = Inr (port s))) \<and>
   (\<forall>e. Service_init md d = Inl e \<longrightarrow>
      (\<exists>v. (port_group, v) \<in> set (finditer d) \<and> py_int md (tl v) = Inl e))"
  using Service_init_Inr [of md d] init_loop_Inl [of md _ "finditer d"]
  by (auto simp: Service_init_def)

text \<open>The theorem of C7 at \<open>a@b@c:1:2\<close>, with two IP parts and two port parts.\<close>

theorem last_occurrence_wins_witness:
  "(\<exists>s. Service_init 4300 ''a@b@c:1:2'' = Inr s \<and> hostname s = Some ''a'' \<and>
        ip s = Some ''c'' \<and> port s = 2) \<and>
   finditer ''a@b@c:1:2'' =
     [(hostname_group, ''a''), (ip_group, ''@b''), (ip_group, ''@c''),
      (port_group, '':1''), (port_group, '':2'')]"
proof -
  have toks: "finditer ''a@b@c:1:2'' =
     [(hostname_group, ''a''), (ip_group, ''@b''), (ip_group, ''@c''),
      (port_group, '':1''), (port_group, '':2'')]"
    by code_simp
  have ret: "Service_init 4300 ''a@b@c:1:2'' =
      Inr \<lparr>description = ''a@b@c:1:2'', ip = Some ''c'', port = 2, hostname = Some ''a''\<rparr>"
    by code_simp
  have lv: "last_value hostname_group (finditer ''a@b@c:1:2'') = Some ''a''"
    "last_value ip_group (finditer ''a@b@c:1:2'') = Some ''@c''"
    "last_value port_group (finditer ''a@b@c:1:2'') = Some '':2''"
    unfolding toks by (simp_all add: last_value_def)
  have p: "py_int 4300 ''2'' = Inr 2" by code_simp
  from last_occurrence_wins [of 4300 "''a@b@c:1:2''"] ret lv p toks
  show ?thesis by simp
qed

text \<open>
  C7 as stated fails when a port part is not a number: \<open>h:x:1\<close> has two port parts and
  \<open>int("x")\<close> raises before the second one is reached, so nothing is overwritten and no
  last occurrence is kept; \<open>h:1:x\<close> raises at the last one.
\<close>

theorem repeated_port_counterexample:
  "Service_init 4300 ''h:x:1'' = Inl (ValueError ''x'') \<and>
   Service_init 4300 ''h:1:x'' = Inl (ValueError ''x'')"
  by code_simp




text \<open>
  C4, as the program has it. \<open>Service.__init__\<close> always terminates (it is a total
  function here). It returns exactly when \<open>int()\<close> accepts every port part of the
  description; otherwise it raises the \<open>ValueError\<close> of \<open>int()\<close> on a port part. When it
  returns and the description has no hostname part, the hostname of the descriptor is
  \<open>None\<close>.
\<close>

theorem parser_outcome:
  "((\<exists>s. Service_init md d = Inr s) \<longleftrightarrow>
      (\<forall>v. (port_group, v) \<in> set (finditer d) \<longrightarrow> (\<exists>n. py_int md (tl v) = Inr n))) \<and>
   (\<forall>e. Service_init md d = Inl e \<longrightarrow>
      (\<exists>v. (port_group, v) \<in> set (finditer d) \<and> e = ValueError (tl v))) \<and>
   (\<forall>s. Service_init md d = Inr s \<and> hostname_group \<notin> fst ` set (finditer d) \<longrightarrow>
      hostname s = None)"
proof (intro conjI allI impI iffI)
  assume "\<exists>s. Service_init md d = Inr s"
  then obtain s where s: "Service_init md d = Inr s" ..
  fix v assume v: "(port_group, v) \<in> set (finditer d)"
  from s v show "\<exists>n. py_int md (tl v) = Inr n"
    unfolding Service_init_def by (rule init_loop_Inr_ports)
next
  assume "\<forall>v. (port_group, v) \<in> set (finditer d) \<longrightarrow> (\<exists>n. py_int md (tl v) = Inr n)"
  then have "\<And>v. (port_group, v) \<in> set (finditer d) \<Longrightarrow> \<exists>n. py_int md (tl v) = Inr n"
    by blast
  then show "\<exists>s. Service_init md d = Inr s"
    unfolding Service_init_def by (rule init_loop_returns)
next
  fix e assume "Service_init md d = Inl e"
  then obtain v where "(port_group, v) \<in> set (finditer d)" "py_int md (tl v) = Inl e"
    unfolding Service_init_def using init_loop_Inl by blast
  moreover from this(2) have "e = ValueError (tl v)"
    by (rule py_int_Inl)
  ultimately show "\<exists>v. (port_group, v) \<in> set (finditer d) \<and> e = ValueError (tl v)" by blast
next
  fix s assume a: "Service_init md d = Inr s \<and> hostname_group \<notin> fst ` set (finditer d)"
  then have "hostname s = last_value hostname_group (finditer d)"
    using Service_init_Inr(3) [of md d s] by simp
  moreover from a have "last_value hostname_group (finditer d) = None"
    by (simp add: last_value_None_iff)
  ultimately show "hostname s = None" by simp
qed


text \<open>The theorem of C4 at \<open>@1.2.3.4:8443\<close>, a description with no hostname part.\<close>

theorem parser_outcome_witness:
  "\<exists>s. Service_init 4300 ''@1.2.3.4:8443'' = Inr s \<and> hostname s = None"
proof -
  have toks: "finditer ''@1.2.3.4:8443'' = [(ip_group, ''@1.2.3.4''), (port_group, '':8443'')]"
    by code_simp
  have p: "py_int 4300 ''8443'' = Inr 8443" by code_simp
  note po = parser_outcome [of 4300 "''@1.2.3.4:8443''"]
  have "\<forall>v. (port_group, v) \<in> set (finditer ''@1.2.3.4:8443'') \<longrightarrow>
          (\<exists>n. py_int 4300 (tl v) = Inr n)"
    unfolding toks using p by simp
  with po obtain s where s: "Service_init 4300 ''@1.2.3.4:8443'' = Inr s" by blast
  have "hostname_group \<notin> fst ` set (finditer ''@1.2.3.4:8443'')"
    unfolding toks by simp
  with po s have "hostname s = None" by blast
  with s show ?thesis by blast
qed

text \<open>
  C4 as stated fails at its own example: on \<open>host:abc\<close> the port part is not a number and
  \<open>int("abc")\<close> raises \<open>ValueError\<close>, which \<open>Service.__init__\<close> does not catch.
\<close>

theorem non_numeric_port_counterexample:
  "Service_init 4300 ''host:abc'' = Inl (ValueError ''abc'')"
  by code_simp

section \<open>The day count of a duration\<close>

text \<open>
  Below \<open>2^34\<close> seconds (about 544 years) the spacing of doubles is finer than twice a
  microsecond, so rounding the seconds of a \<open>timedelta\<close> never crosses a multiple of
  86400, and the float quotient \<open>total_seconds() // 86400\<close> is the exact number of whole
  days, rounded towards minus infinity.
\<close>

lemma round_half_even_bounds:
  "of_int (round_half_even z) \<le> z + 1 / 2" "z - 1 / 2 \<le> of_int (round_half_even z)"
  unfolding round_half_even_def Let_def by (auto; linarith)+

lemma round_half_even_ge: "of_int n \<le> z \<Longrightarrow> n \<le> round_half_even z"
proof -
  assume "of_int n \<le> z"
  then have "n \<le> \<lfloor>z\<rfloor>" by (simp add: le_floor_iff)
  moreover have "\<lfloor>z\<rfloor> \<le> round_half_even z"
    unfolding round_half_even_def Let_def by auto
  ultimately show ?thesis by simp
qed

lemma round_half_even_le: "z \<le> of_int n \<Longrightarrow> round_half_even z \<le> n"
proof (cases "z = of_int n")
  case True
  then show ?thesis by (simp add: round_half_even_def)
next
  case False
  assume "z \<le> of_int n"
  with False have "z < of_int n" by simp
  then have "\<lfloor>z\<rfloor> < n" by (simp add: floor_less_iff)
  moreover have "round_half_even z \<le> \<lfloor>z\<rfloor> + 1"
    unfolding round_half_even_def Let_def by auto
  ultimately show ?thesis by simp
qed

lemma bit_length_le: "n < 2 ^ k \<Longrightarrow> bit_length n \<le> int k"
proof (induction k arbitrary: n)
  case 0
  then show ?case by (simp add: bit_length.simps)
next
  case (Suc k)
  show ?case
  proof (cases "n \<le> 0")
    case True
    then show ?thesis by (simp add: bit_length.simps)
  next
    case False
    from Suc.prems have "n div 2 < 2 ^ k" by simp
    from Suc.IH [OF this] False show ?thesis
      by (subst bit_length.simps) simp
  qed
qed

lemma bit_length_million: "bit_length 1000000 = 20"
  by code_simp

lemma exponent_bound:
  assumes "0 < a" "a < 17179869184000000"
  shows "(if of_int 1000000 * 2 powi (bit_length a - bit_length 1000000) \<le> (of_int a :: rat)
          then bit_length a - bit_length 1000000
          else bit_length a - bit_length 1000000 - 1) \<le> 33"
proof -
  have "a < 2 ^ 54" using assms(2) by simp
  then have "bit_length a \<le> 54" using bit_length_le [of a 54] by simp
  then have L: "bit_length a - bit_length 1000000 \<le> 34"
    by (simp add: bit_length_million)
  show ?thesis
  proof (cases "bit_length a - bit_length 1000000 = 34")
    case True
    have "\<not> of_int 1000000 * 2 powi (34::int) \<le> (of_int a :: rat)"
      using assms(2) by simp
    with True show ?thesis by simp
  next
    case False
    with L show ?thesis by simp
  qed
qed

lemma power_int_negative: "e \<le> 33 \<Longrightarrow> (2::rat) powi (e - 52) = 1 / 2 ^ nat (52 - e)"
  by (simp add: power_int_def field_simps power_inverse [symmetric] flip: power_inverse)

lemma true_divide_form:
  assumes "0 < a" "a < 17179869184000000"
  obtains p where "19 \<le> p"
    and "true_divide a 1000000 =
           of_int (round_half_even (of_int a / 1000000 * 2 ^ p)) / 2 ^ p"
proof -
  define e where "e = (if of_int 1000000 * 2 powi (bit_length a - bit_length 1000000) \<le> (of_int a :: rat)
          then bit_length a - bit_length 1000000
          else bit_length a - bit_length 1000000 - 1)"
  have e: "e \<le> 33" unfolding e_def using assms by (rule exponent_bound)
  define p where "p = nat (52 - e)"
  have p: "19 \<le> p" using e by (simp add: p_def)
  have u: "(2::rat) powi (e - 52) = 1 / 2 ^ p"
    unfolding p_def using e by (rule power_int_negative)
  have "true_divide a 1000000 =
      of_int (round_half_even (of_int a / (of_int 1000000 * 2 powi (e - 52)))) * 2 powi (e - 52)"
    using assms(1) by (simp add: true_divide_def Let_def e_def)
  also have "\<dots> = of_int (round_half_even (of_int a / 1000000 * 2 ^ p)) / 2 ^ p"
    unfolding u by (simp add: field_simps)
  finally show ?thesis using p that by blast
qed

lemma true_divide_bracket:
  assumes "0 < a" "a < 17179869184000000"
  shows "of_int lo \<le> (of_int a :: rat) / 1000000 \<Longrightarrow> of_int lo \<le> true_divide a 1000000"
    and "(of_int a :: rat) / 1000000 \<le> of_int hi \<Longrightarrow> true_divide a 1000000 \<le> of_int hi"
    and "\<bar>true_divide a 1000000 - of_int a / 1000000\<bar> \<le> 1 / 1048576"
proof -
  from assms obtain p where p: "19 \<le> p"
    and td: "true_divide a 1000000 =
           of_int (round_half_even (of_int a / 1000000 * 2 ^ p)) / 2 ^ p"
    by (rule true_divide_form)
  let ?x = "(of_int a :: rat) / 1000000"
  let ?m = "round_half_even (?x * 2 ^ p)"
  have pos: "(0::rat) < 2 ^ p" by simp
  {
    assume "of_int lo \<le> ?x"
    then have "of_int (lo * 2 ^ p) \<le> ?x * 2 ^ p"
      using pos by (simp add: mult_right_mono)
    then have "lo * 2 ^ p \<le> ?m" by (rule round_half_even_ge)
    then have "(of_int (lo * 2 ^ p) :: rat) \<le> of_int ?m" by (simp only: of_int_le_iff)
    then have "(of_int lo :: rat) * 2 ^ p \<le> of_int ?m" by simp
    then show "of_int lo \<le> true_divide a 1000000"
      unfolding td using pos by (simp add: pos_le_divide_eq)
  }
  {
    assume "?x \<le> of_int hi"
    then have "?x * 2 ^ p \<le> of_int (hi * 2 ^ p)"
      using pos by (simp add: mult_right_mono)
    then have "?m \<le> hi * 2 ^ p" by (rule round_half_even_le)
    then have "(of_int ?m :: rat) \<le> of_int (hi * 2 ^ p)" by (simp only: of_int_le_iff)
    then have "(of_int ?m :: rat) \<le> of_int hi * 2 ^ p" by simp
    then show "true_divide a 1000000 \<le> of_int hi"
      unfolding td using pos by (simp add: pos_divide_le_eq)
  }
  have "\<bar>of_int ?m - ?x * 2 ^ p\<bar> \<le> 1 / 2"
    using round_half_even_bounds [of "?x * 2 ^ p"] by linarith
  then have "\<bar>of_int ?m - ?x * 2 ^ p\<bar> / 2 ^ p \<le> (1 / 2) / 2 ^ p"
    by (rule divide_right_mono) simp
  moreover have "\<bar>of_int ?m - ?x * 2 ^ p\<bar> / 2 ^ p = \<bar>of_int ?m / 2 ^ p - ?x\<bar>"
  proof -
    have "of_int ?m / 2 ^ p - ?x = (of_int ?m - ?x * 2 ^ p) / 2 ^ p"
      by (simp add: diff_divide_distrib)
    then have "\<bar>of_int ?m / 2 ^ p - ?x\<bar> = \<bar>(of_int ?m - ?x * 2 ^ p) / 2 ^ p\<bar>"
      by (rule arg_cong)
    also have "\<dots> = \<bar>of_int ?m - ?x * 2 ^ p\<bar> / \<bar>2 ^ p\<bar>"
      by (rule abs_divide)
    also have "\<bar>(2::rat) ^ p\<bar> = 2 ^ p" by simp
    finally show ?thesis by (rule sym)
  qed
  moreover have "(1 / 2) / (2::rat) ^ p \<le> 1 / 1048576"
  proof -
    have "(2::rat) ^ 19 \<le> 2 ^ p" using p by (intro power_increasing) auto
    then have "1 / (2::rat) ^ p \<le> 1 / 2 ^ 19"
      by (intro divide_left_mono) auto
    then show ?thesis by simp
  qed
  ultimately show "\<bar>true_divide a 1000000 - of_int a / 1000000\<bar> \<le> 1 / 1048576"
    unfolding td by linarith
qed

lemma true_divide_minus: "true_divide (- n) d = - true_divide n d"
  by (simp add: true_divide_def Let_def)

lemma div_day_bounds:
  fixes us :: int
  shows "(of_int (us div 86400000000) :: rat) * 86400000000 \<le> of_int us"
    and "(of_int us :: rat) + 1 \<le> (of_int (us div 86400000000) + 1) * 86400000000"
proof -
  let ?k = "us div 86400000000"
  have m: "0 \<le> us mod 86400000000" "us mod 86400000000 < 86400000000" by simp_all
  have eq: "us = ?k * 86400000000 + us mod 86400000000" by simp
  have "?k * 86400000000 \<le> us" using m(1) eq by linarith
  then have "(of_int (?k * 86400000000) :: rat) \<le> of_int us" by (simp only: of_int_le_iff)
  then show "(of_int ?k :: rat) * 86400000000 \<le> of_int us" by simp
  have "(?k + 1) * 86400000000 = ?k * 86400000000 + 86400000000"
    by (simp add: algebra_simps)
  with m(2) eq have "us + 1 \<le> (?k + 1) * 86400000000" by linarith
  then have "(of_int (us + 1) :: rat) \<le> of_int ((?k + 1) * 86400000000)"
    by (simp only: of_int_le_iff)
  then show "(of_int us :: rat) + 1 \<le> (of_int ?k + 1) * 86400000000" by simp
qed

lemma floordiv_total_seconds:
  assumes "\<bar>us\<bar> < 17179869184000000"
  shows "floordiv_86400 (total_seconds us) = us div 86400000000"
proof -
  let ?k = "us div 86400000000"
  note b = div_day_bounds [of us]
  have "of_int ?k \<le> total_seconds us / 86400 \<and> total_seconds us / 86400 < of_int ?k + 1"
  proof (cases "us = 0")
    case True
    then show ?thesis by (simp add: total_seconds_def true_divide_def)
  next
    case False
    show ?thesis
    proof (cases "0 < us")
      case True
      with assms have r: "0 < us" "us < 17179869184000000" by auto
      have "of_int (86400 * ?k) \<le> (of_int us :: rat) / 1000000"
        using b(1) by simp
      from true_divide_bracket(1) [OF r this]
      have lo: "of_int ?k * 86400 \<le> total_seconds us"
        by (simp add: total_seconds_def mult.commute)
      from true_divide_bracket(3) [OF r]
      have "total_seconds us \<le> of_int us / 1000000 + 1 / 1048576"
        unfolding total_seconds_def by linarith
      moreover have "(of_int us :: rat) / 1000000 + 1 / 1000000 \<le> (of_int ?k + 1) * 86400"
        using b(2) by (simp add: field_simps)
      ultimately have hi: "total_seconds us < (of_int ?k + 1) * 86400"
        by simp
      from lo hi show ?thesis by (simp add: pos_le_divide_eq pos_divide_less_eq)
    next
      case neg: False
      with False assms have r: "0 < - us" "- us < 17179869184000000" by auto
      have ts: "total_seconds us = - true_divide (- us) 1000000"
        unfolding total_seconds_def using true_divide_minus [of "- us" 1000000] by simp
      have "(of_int (- us) :: rat) / 1000000 \<le> of_int (- (86400 * ?k))"
        using b(1) by simp
      from true_divide_bracket(2) [OF r this]
      have lo: "of_int ?k * 86400 \<le> total_seconds us"
        unfolding ts by (simp add: mult.commute)
      from true_divide_bracket(3) [OF r]
      have "of_int (- us) / 1000000 - 1 / 1048576 \<le> true_divide (- us) 1000000"
        by linarith
      then have "total_seconds us \<le> of_int us / 1000000 + 1 / 1048576"
        unfolding ts by simp
      moreover have "(of_int us :: rat) / 1000000 + 1 / 1000000 \<le> (of_int ?k + 1) * 86400"
        using b(2) by (simp add: field_simps)
      ultimately have hi: "total_seconds us < (of_int ?k + 1) * 86400"
        by simp
      from lo hi show ?thesis by (simp add: pos_le_divide_eq pos_divide_less_eq)
    qed
  qed
  then show ?thesis
    unfolding floordiv_86400_def by (simp add: floor_unique)
qed

section \<open>Properties of the validation\<close>

lemma days_text_exact:
  "\<bar>us\<bar> < 17179869184000000 \<Longrightarrow> days_text us = format_0f (us div 86400000000)"
  by (simp add: days_text_def floordiv_total_seconds)

lemma validate_certificate_fetched:
  assumes "get_server_certificate world service delay = Inr cert"
    and "strptime world (notAfter cert) = Inr not_after"
    and "strptime world (notBefore cert) = Inr not_before"
  shows "validate_certificate world service limitlow limithigh check_ocsp delay =
     (if check_ocsp then
        (case get_ocsp_status world service of
           Inl err \<Rightarrow>
             (Inl (Uncaught err),
              [call_get_server_certificate, call_utcnow, call_utcnow, call_get_ocsp_status])
         | Inr status \<Rightarrow>
             if length status \<le> 2 then
               (Inl (Uncaught (Exc IndexError ''list index out of range'')),
                [call_get_server_certificate, call_utcnow, call_utcnow, call_get_ocsp_status])
             else if status ! 2 = ''OCSP Status: REVOKED'' then
               (Inl (CertificateValidationError Revoked ''OCSP Satus: REVOKED''),
                [call_get_server_certificate, call_utcnow, call_utcnow, call_get_ocsp_status])
             else
               (check_limits limitlow limithigh
                  (not_after - utcnow world 0) (utcnow world 1 - not_before),
                [call_get_server_certificate, call_utcnow, call_utcnow, call_get_ocsp_status]))
      else
        (check_limits limitlow limithigh
           (not_after - utcnow world 0) (utcnow world 1 - not_before),
         [call_get_server_certificate, call_utcnow, call_utcnow]))"
  using assms by (simp add: validate_certificate_def Let_def split: sum.splits)

lemma wrap_fetch_error_cases:
  "wrap_fetch_error (Exc c msg) =
     CertificateValidationError
       (if c = socket_timeout then ConnectTimeout
        else if c = ConnectionResetError then ConnectionReset else NetworkError)
       (if c = socket_timeout then ''connect timeout''
        else if c = ConnectionResetError then ''Connection reset'' else msg)"
  by (cases c) simp_all

lemma example_fetch:
  "get_server_certificate (example_world (Inr ()) certificate now status) example_service 10 =
     Inr certificate"
  by (simp add: get_server_certificate_def example_world_def)

lemma example_fetch_fails:
  "get_server_certificate (example_world (Inl e) certificate now status) example_service 10 =
     Inl e"
  by (simp add: get_server_certificate_def example_world_def)

lemma revoked_before_limits:
  assumes "get_server_certificate world service delay = Inr cert"
    and "strptime world (notAfter cert) = Inr not_after"
    and "strptime world (notBefore cert) = Inr not_before"
    and "get_ocsp_status world service = Inr status"
    and "2 < length status" and "status ! 2 = ''OCSP Status: REVOKED''"
  shows "validate_certificate world service limitlow limithigh True delay =
     (Inl (CertificateValidationError Revoked ''OCSP Satus: REVOKED''),
      [call_get_server_certificate, call_utcnow, call_utcnow, call_get_ocsp_status])"
  using assms(4-6) by (simp add: validate_certificate_fetched [OF assms(1-3)])

lemma checker_not_invoked:
  "call_get_ocsp_status \<notin>
     set (snd (validate_certificate world service limitlow limithigh False delay))"
  by (simp add: validate_certificate_def Let_def split: sum.splits)

lemma validate_after_failed_fetch:
  assumes "get_server_certificate world service delay = Inl (Exc c detail)"
  shows "validate_certificate world service limitlow limithigh check_ocsp delay =
     (Inl (wrap_fetch_error (Exc c detail)), [call_get_server_certificate])"
  using assms by (simp add: validate_certificate_def)

lemma validate_checks_limits:
  assumes "get_server_certificate world service delay = Inr cert"
    and "strptime world (notAfter cert) = Inr not_after"
    and "strptime world (notBefore cert) = Inr not_before"
    and "\<not> check_ocsp \<or>
         (\<exists>status. get_ocsp_status world service = Inr status \<and> 2 < length status \<and>
            status ! 2 \<noteq> ''OCSP Status: REVOKED'')"
  shows "fst (validate_certificate world service limitlow limithigh check_ocsp delay) =
           check_limits limitlow limithigh
             (not_after - utcnow world 0) (utcnow world 1 - not_before)"
  using assms(4) by (auto simp: validate_certificate_fetched [OF assms(1-3)])

text \<open>
  The two limits decide the outcome whatever the durations are: the order of the tests
  and the return do not depend on the day count.
\<close>

lemma check_limits_outcome:
  "(expire_in < limitlow \<longrightarrow>
      (\<exists>detail. check_limits limitlow limithigh expire_in certificate_age =
         Inl (CertificateValidationError ExpiringSoon detail))) \<and>
   (\<not> expire_in < limitlow \<and> limithigh < certificate_age \<longrightarrow>
      (\<exists>detail. check_limits limitlow limithigh expire_in certificate_age =
         Inl (CertificateValidationError TooOld detail))) \<and>
   (\<not> expire_in < limitlow \<and> \<not> limithigh < certificate_age \<longrightarrow>
      check_limits limitlow limithigh expire_in certificate_age = Inr ())"
  by (simp add: check_limits_def)

text \<open>
  The day count in the text is the floor of the duration in whole days whenever the
  duration that is printed is shorter than \<open>2^34\<close> seconds.
\<close>

lemma check_limits_exact:
  assumes "expire_in < limitlow \<Longrightarrow> \<bar>expire_in\<bar> < 2 ^ 34 * 1000000"
    and "\<not> expire_in < limitlow \<Longrightarrow> limithigh < certificate_age \<Longrightarrow>
         \<bar>certificate_age\<bar> < 2 ^ 34 * 1000000"
  shows "check_limits limitlow limithigh expire_in certificate_age =
     (if expire_in < limitlow then
        Inl (CertificateValidationError ExpiringSoon
               (''Certificate expires in '' @ format_0f (expire_in div 86400000000)
                  @ '' days''))
      else if limithigh < certificate_age then
        Inl (CertificateValidationError TooOld
               (''Certificate is too old (has been created ''
                  @ format_0f (certificate_age div 86400000000) @ '' days ago)''))
      else Inr ())"
proof (cases "expire_in < limitlow")
  case True
  with assms(1) have "days_text expire_in = format_0f (expire_in div 86400000000)"
    by (intro days_text_exact) simp
  with True show ?thesis by (simp add: check_limits_def)
next
  case False
  show ?thesis
  proof (cases "limithigh < certificate_age")
    case True
    with False assms(2)
    have "days_text certificate_age = format_0f (certificate_age div 86400000000)"
      by (intro days_text_exact) simp
    with False True show ?thesis by (simp add: check_limits_def)
  next
    case old: False
    with False show ?thesis by (simp add: check_limits_def)
  qed
qed

text \<open>The text of a day count is that number in decimal digits.\<close>

lemma digit_char:
  assumes "0 \<le> k" "k < 10"
  shows "digit_val (char_of (48 + k :: int)) = nat k" "is_digit (char_of (48 + k :: int))"
proof -
  have "48 + k = int (48 + nat k)" using assms by simp
  then have "char_of (48 + k) = char_of (48 + nat k)" by (simp only: char_of_nat)
  moreover have "(of_char (char_of (48 + nat k)) :: nat) = 48 + nat k"
    using assms by simp
  ultimately have c: "(of_char (char_of (48 + k)) :: nat) = 48 + nat k" by simp
  show "digit_val (char_of (48 + k :: int)) = nat k"
    by (simp add: digit_val_def c)
  show "is_digit (char_of (48 + k :: int))"
    using assms by (simp add: is_digit_def c)
qed

lemma decimal_snoc: "decimal (ds @ [c]) = 10 * decimal ds + digit_val c"
  by (simp add: decimal_def)

lemma digits_of_decimal:
  "0 \<le> n \<Longrightarrow> decimal (digits_of n) = nat n \<and> (\<forall>c\<in>set (digits_of n). is_digit c)"
proof (induction n rule: digits_of.induct)
  case (1 n)
  show ?case
  proof (cases "n < 10")
    case True
    then have "digits_of n = [char_of (48 + n)]" by (subst digits_of.simps) simp
    with True "1.prems" show ?thesis
      by (simp add: digit_char decimal_def)
  next
    case False
    then have d: "digits_of n = digits_of (n div 10) @ [char_of (48 + n mod 10)]"
      by (subst digits_of.simps) simp
    from False "1.prems" have IH: "decimal (digits_of (n div 10)) = nat (n div 10)"
      "\<forall>c\<in>set (digits_of (n div 10)). is_digit c"
      using "1.IH" by simp_all
    have m: "0 \<le> n mod 10" "n mod 10 < 10" by simp_all
    have "0 \<le> n div 10" using "1.prems" by simp
    then have "int (10 * nat (n div 10) + nat (n mod 10)) = n" by simp
    then have "10 * nat (n div 10) + nat (n mod 10) = nat n" by linarith
    with IH m show ?thesis
      unfolding d by (simp add: decimal_snoc digit_char)
  qed
qed

text \<open>
  Two examples, at noon of 4 November 2026 with a limit of 15 days: a
  certificate ending 5 days later is refused with \<open>Certificate expires in 5 days\<close>, and one
  ending 20 days later passes.
\<close>

lemma limits_examples:
  "fst (validate_certificate
          (example_world (Inr ()) (example_cert ''Nov  9 12:00:00 2026 GMT'') noon (Inr []))
          example_service (timedelta_days 15) (timedelta_days 365) False 10) =
     Inl (CertificateValidationError ExpiringSoon ''Certificate expires in 5 days'') \<and>
   fst (validate_certificate
          (example_world (Inr ()) (example_cert ''Nov 24 12:00:00 2026 GMT'') noon (Inr []))
          example_service (timedelta_days 15) (timedelta_days 365) False 10) =
     Inr ()"
proof -
  let ?W = "\<lambda>not_after. example_world (Inr ()) (example_cert not_after) noon (Inr [])"
  have f5: "format_0f 5 = ''5''" by code_simp
  have before: "strptime (?W s) (notBefore (example_cert s)) = Inr 63928526400000000" for s
    by (simp add: example_world_def example_cert_def example_strptime_def)
  have after5: "strptime (?W ''Nov  9 12:00:00 2026 GMT'')
      (notAfter (example_cert ''Nov  9 12:00:00 2026 GMT'')) = Inr 63929822400000000"
    by (simp add: example_world_def example_cert_def example_strptime_def)
  have after20: "strptime (?W ''Nov 24 12:00:00 2026 GMT'')
      (notAfter (example_cert ''Nov 24 12:00:00 2026 GMT'')) = Inr 63931118400000000"
    by (simp add: example_world_def example_cert_def example_strptime_def)
  have off: "\<not> False \<or>
         (\<exists>status. get_ocsp_status (?W s) example_service = Inr status \<and> 2 < length status \<and>
            status ! 2 \<noteq> ''OCSP Status: REVOKED'')" for s
    by simp
  have e5: "63929822400000000 - utcnow (?W s) 0 = 432000000000" for s
    by (simp add: example_world_def noon_def)
  have e20: "63931118400000000 - utcnow (?W s) 0 = 1728000000000" for s
    by (simp add: example_world_def noon_def)
  have age: "utcnow (?W s) 1 - 63928526400000000 = 864000000000" for s
    by (simp add: example_world_def noon_def)
  have l: "(432000000000 :: int) < timedelta_days 15"
    "\<not> (1728000000000 :: int) < timedelta_days 15"
    "\<not> timedelta_days 365 < (864000000000 :: int)"
    by (simp_all add: timedelta_days_def)
  have x5: "check_limits (timedelta_days 15) (timedelta_days 365) 432000000000 864000000000 =
      Inl (CertificateValidationError ExpiringSoon ''Certificate expires in 5 days'')"
    using check_limits_exact [of 432000000000 "timedelta_days 15" "timedelta_days 365"
        864000000000] l(1)
    by (simp add: f5)
  have x20: "check_limits (timedelta_days 15) (timedelta_days 365) 1728000000000 864000000000 =
      Inr ()"
    using l(2,3) by (simp add: check_limits_def)
  have 1: "fst (validate_certificate (?W ''Nov  9 12:00:00 2026 GMT'')
          example_service (timedelta_days 15) (timedelta_days 365) False 10) =
     Inl (CertificateValidationError ExpiringSoon ''Certificate expires in 5 days'')"
    unfolding validate_checks_limits [OF example_fetch after5 before off] e5 age by (rule x5)
  have 2: "fst (validate_certificate (?W ''Nov 24 12:00:00 2026 GMT'')
          example_service (timedelta_days 15) (timedelta_days 365) False 10) =
     Inr ()"
    unfolding validate_checks_limits [OF example_fetch after20 before off] e20 age by (rule x20)
  from 1 2 show ?thesis by simp
qed

text \<open>
  C1. After a successful fetch, and unless the revocation check is set and answers
  revoked, the validation raises \<open>Certificate expires in N days\<close> if
  \<open>expire_in < limitlow\<close>, else \<open>Certificate is too old (has been created N days ago)\<close> if
  \<open>certificate_age > limithigh\<close>, and else returns; \<open>N\<close> is to be the floor of the duration
  in whole days. The program has the branches for every duration (\<open>validate_checks_limits\<close>,
  \<open>check_limits_outcome\<close>) and the floor for every duration shorter than \<open>2^34\<close> seconds
  (\<open>check_limits_exact\<close>), but it takes the floor of a float, \<open>total_seconds() // 86400\<close>,
  and beyond that length the float can be rounded up to a whole number of days. With
  \<open>notAfter\<close> at the last second of the year 9999, the clock at 23:59:59.000001 of
  4 November 2026 and \<open>limitlow\<close> of 3000000 days, \<open>expire_in\<close> is one microsecond short
  of 2912135 days: its floor is 2912134 days, \<open>total_seconds()\<close> is 251608464000.0 and
  the text says 2912135.
\<close>

theorem day_count_rounded_up:
  "fst (validate_certificate
          (example_world (Inr ()) (example_cert ''Dec 31 23:59:59 9999 GMT'')
             63929433599000001 (Inr []))
          example_service (timedelta_days 3000000) (timedelta_days 365) False 10) =
     Inl (CertificateValidationError ExpiringSoon ''Certificate expires in 2912135 days'') \<and>
   (315537897599000000 - 63929433599000001) div 86400000000 = (2912134 :: int)"
  by code_simp

text \<open>
  C2, at an input where the revocation checker reports revoked: the fetch succeeds, the
  dates are within both limits and \<open>status[2]\<close> is \<open>OCSP Status: REVOKED\<close>. The validation
  raises at line 153, before the limits are looked at, but the text it raises is
  \<open>OCSP Satus: REVOKED\<close>, not the text \<open>OCSP Status: REVOKED\<close> that line 151 compares with.
\<close>

theorem revoked_text_misspelt:
  "fst (validate_certificate
          (example_world (Inr ()) (example_cert ''Nov 24 12:00:00 2026 GMT'') noon
             (Inr [''Host: example.com:443'', ''OCSP URL: http://ocsp.example.com'',
                   ''OCSP Status: REVOKED'']))
          example_service (timedelta_days 15) (timedelta_days 365) True 10) =
     Inl (CertificateValidationError Revoked ''OCSP Satus: REVOKED'') \<and>
   ''OCSP Satus: REVOKED'' \<noteq> ''OCSP Status: REVOKED''"
  by code_simp

text \<open>
  C3. When the fetch raises, the validation raises \<open>CertificateValidationError\<close> at once:
  \<open>connect timeout\<close> for a \<open>socket.timeout\<close>, \<open>Connection reset\<close> for a
  \<open>ConnectionResetError\<close>, and the text of the exception for any other one. The fetcher is
  the only collaborator called: the clock is not read and the revocation checker is not
  invoked, so the result is never a return and never one of the three later \<open>raise\<close>
  statements.
\<close>

theorem fetch_failure_wrapped:
  assumes "get_server_certificate world service delay = Inl (Exc c detail)"
  shows "validate_certificate world service limitlow limithigh check_ocsp delay =
     (Inl (CertificateValidationError
             (if c = socket_timeout then ConnectTimeout
              else if c = ConnectionResetError then ConnectionReset else NetworkError)
             (if c = socket_timeout then ''connect timeout''
              else if c = ConnectionResetError then ''Connection reset'' else detail)),
      [call_get_server_certificate])"
  using assms by (simp add: validate_certificate_def wrap_fetch_error_cases)

text \<open>The theorem of C3 at a connection that times out and at one that is refused.\<close>

theorem fetch_failure_wrapped_witness:
  "validate_certificate
     (example_world (Inl (Exc socket_timeout ''timed out''))
        (example_cert ''Nov 24 12:00:00 2026 GMT'') noon (Inr []))
     example_service (timedelta_days 15) (timedelta_days 365) True 10 =
   (Inl (CertificateValidationError ConnectTimeout ''connect timeout''),
    [call_get_server_certificate]) \<and>
   validate_certificate
     (example_world (Inl (Exc other_Exception ''[Errno 111] Connection refused''))
        (example_cert ''Nov 24 12:00:00 2026 GMT'') noon (Inr []))
     example_service (timedelta_days 15) (timedelta_days 365) True 10 =
   (Inl (CertificateValidationError NetworkError ''[Errno 111] Connection refused''),
    [call_get_server_certificate])"
  using fetch_failure_wrapped [where
      world = "example_world (Inl (Exc socket_timeout ''timed out''))
        (example_cert ''Nov 24 12:00:00 2026 GMT'') noon (Inr [])"
      and service = example_service and delay = 10 and c = socket_timeout
      and detail = "''timed out''" and limitlow = "timedelta_days 15"
      and limithigh = "timedelta_days 365" and check_ocsp = True]
    fetch_failure_wrapped [where
      world = "example_world (Inl (Exc other_Exception ''[Errno 111] Connection refused''))
        (example_cert ''Nov 24 12:00:00 2026 GMT'') noon (Inr [])"
      and service = example_service and delay = 10 and c = other_Exception
      and detail = "''[Errno 111] Connection refused''" and limitlow = "timedelta_days 15"
      and limithigh = "timedelta_days 365" and check_ocsp = True]
  by (simp add: example_fetch_fails)

text \<open>
  C10. With \<open>check_ocsp\<close> set and the certificate fetched and read, an exception raised by
  \<open>get_ocsp_status\<close> leaves \<open>validate_certificate\<close> as it is, not wrapped in a
  \<open>CertificateValidationError\<close>; every exception of the fetch is wrapped in one.
\<close>

theorem checker_exception_propagates:
  assumes "get_server_certificate world service delay = Inr cert"
    and "strptime world (notAfter cert) = Inr not_after"
    and "strptime world (notBefore cert) = Inr not_before"
    and "get_ocsp_status world service = Inl e"
  shows "fst (validate_certificate world service limitlow limithigh True delay) =
           Inl (Uncaught e) \<and>
         (\<forall>world' service' delay' e' limitlow' limithigh' check_ocsp'.
            get_server_certificate world' service' delay' = Inl e' \<longrightarrow>
            (\<exists>kind detail.
               fst (validate_certificate world' service' limitlow' limithigh' check_ocsp' delay')
                 = Inl (CertificateValidationError kind detail)))"
proof
  show "fst (validate_certificate world service limitlow limithigh True delay) =
           Inl (Uncaught e)"
    using assms(4) by (simp add: validate_certificate_fetched [OF assms(1-3)])
next
  show "\<forall>world' service' delay' e' limitlow' limithigh' check_ocsp'.
            get_server_certificate world' service' delay' = Inl e' \<longrightarrow>
            (\<exists>kind detail.
               fst (validate_certificate world' service' limitlow' limithigh' check_ocsp' delay')
                 = Inl (CertificateValidationError kind detail))"
  proof (intro allI impI)
    fix world' service' delay' e' limitlow' limithigh' check_ocsp'
    assume f: "get_server_certificate world' service' delay' = Inl e'"
    obtain c detail where e': "e' = Exc c detail" by (cases e')
    from validate_after_failed_fetch [OF f [unfolded e']] wrap_fetch_error_cases [of c detail]
    show "\<exists>kind detail.
               fst (validate_certificate world' service' limitlow' limithigh' check_ocsp' delay')
                 = Inl (CertificateValidationError kind detail)"
      by simp
  qed
qed

text \<open>The theorem of C10 at a revocation checker that raises.\<close>

theorem checker_exception_propagates_witness:
  "fst (validate_certificate
          (example_world (Inr ()) (example_cert ''Nov 24 12:00:00 2026 GMT'') noon
             (Inl (Exc other_Exception ''ocsp responder unreachable'')))
          example_service (timedelta_days 15) (timedelta_days 365) True 10) =
     Inl (Uncaught (Exc other_Exception ''ocsp responder unreachable''))"
proof -
  let ?W = "example_world (Inr ()) (example_cert ''Nov 24 12:00:00 2026 GMT'') noon
             (Inl (Exc other_Exception ''ocsp responder unreachable''))"
  have after: "strptime ?W (notAfter (example_cert ''Nov 24 12:00:00 2026 GMT'')) =
      Inr 63931118400000000"
    by (simp add: example_world_def example_cert_def example_strptime_def)
  have before: "strptime ?W (notBefore (example_cert ''Nov 24 12:00:00 2026 GMT'')) =
      Inr 63928526400000000"
    by (simp add: example_world_def example_cert_def example_strptime_def)
  have raised: "get_ocsp_status ?W example_service =
      Inl (Exc other_Exception ''ocsp responder unreachable'')"
    by (simp add: example_world_def)
  from checker_exception_propagates [OF example_fetch after before raised]
  show ?thesis by blast
qed

section \<open>Properties of the host list\<close>

lemma split_newline_no_newline:
  "CHR 0x0A \<notin> set l \<Longrightarrow> split_newline l = [l]"
proof -
  assume "CHR 0x0A \<notin> set l"
  then have "dropWhile (\<lambda>c. c \<noteq> CHR 0x0A) l = []" by auto
  then show ?thesis by (subst split_newline.simps) (simp only: list.case)
qed

lemma split_newline_line:
  assumes "CHR 0x0A \<notin> set l"
  shows "split_newline (l @ CHR 0x0A # rest) = l # split_newline rest"
proof -
  from assms have "\<forall>c\<in>set l. c \<noteq> CHR 0x0A" by auto
  then have "dropWhile (\<lambda>c. c \<noteq> CHR 0x0A) (l @ CHR 0x0A # rest) = CHR 0x0A # rest"
    and "takeWhile (\<lambda>c. c \<noteq> CHR 0x0A) (l @ CHR 0x0A # rest) = l"
    by (simp_all add: dropWhile_append2 takeWhile_append2)
  then show ?thesis by (subst split_newline.simps) (simp only: list.case)
qed

lemma split_join_newline:
  "ls \<noteq> [] \<Longrightarrow> \<forall>l\<in>set ls. CHR 0x0A \<notin> set l \<Longrightarrow> split_newline (join_newline ls) = ls"
proof (induction ls rule: join_newline.induct)
  case 1
  then show ?case by simp
next
  case (2 l)
  then show ?case by (simp add: split_newline_no_newline)
next
  case (3 l l' ls)
  then show ?case by (simp add: split_newline_line)
qed

lemma kept_line: "(host \<noteq> [] \<and> \<not> startswith host (CHR ''#'')) \<longleftrightarrow> (host \<noteq> [] \<and> hd host \<noteq> CHR ''#'')"
  by (cases host) (simp_all add: startswith_def)

text \<open>
  C9, as the program has it. For a file made of the lines \<open>ls\<close>, the hosts after
  \<open>--from-file\<close> are the positional hosts followed, in file order, by one token for each
  line that is not empty and whose first character is not \<open>#\<close>; the token is the line
  with the white space at both ends removed. The test is made on the line as read and
  the white space is removed afterwards.
\<close>

theorem hosts_from_file:
  assumes "ls \<noteq> []" and "\<forall>l\<in>set ls. CHR 0x0A \<notin> set l"
  shows "main_hosts hosts (Some (join_newline ls)) =
           hosts @ map strip (filter (\<lambda>l. l \<noteq> [] \<and> hd l \<noteq> CHR ''#'') ls)"
  by (simp add: main_hosts_def split_join_newline [OF assms] kept_line)

text \<open>
  The theorem of C9 at a file of four lines, the last one ended by a line feed: a
  comment, a host, an empty line and a host with blanks around it.
\<close>

theorem hosts_from_file_witness:
  "main_hosts [''example.com'']
     (Some ''# fleet\<newline>python.org\<newline>\<newline>  mdk.fr:443 \<newline>'') =
   [''example.com'', ''python.org'', ''mdk.fr:443'']"
proof -
  let ?ls = "[''# fleet'', ''python.org'', '''', ''  mdk.fr:443 '', '''']"
  have j: "join_newline ?ls = ''# fleet\<newline>python.org\<newline>\<newline>  mdk.fr:443 \<newline>''"
    by simp
  have n: "\<forall>l\<in>set ?ls. CHR 0x0A \<notin> set l" by simp
  have k: "[''example.com''] @ map strip (filter (\<lambda>l. l \<noteq> [] \<and> hd l \<noteq> CHR ''#'') ?ls) =
      [''example.com'', ''python.org'', ''mdk.fr:443'']"
    by code_simp
  from hosts_from_file [OF _ n, of "[''example.com'']"] show ?thesis
    unfolding j k by simp
qed

text \<open>
  C9 as stated fails for a line of blanks and for a comment written after a blank:
  neither is empty, neither starts with \<open>#\<close>, so both are kept, and stripped they give
  the empty token and a token that begins with \<open>#\<close>.
\<close>

theorem blank_and_indented_comment_counterexample:
  "main_hosts [''example.com'']
     (Some ''python.org\<newline>  \<newline> # fleet\<newline>#mdk.fr\<newline>'') =
   [''example.com'', ''python.org'', '''', ''# fleet'']"
  by code_simp

end
